theory Spec2Isabelle
  imports Complex_Main "HOL-Library.AList" "HOL-Library.Char_ord"
begin

section \<open>Board state of the hardware page (static/js/eeprom.js)\<close>

text \<open>
  The page keeps one global \<open>state\<close> object. A placed component is a JavaScript object
  literal; the board keeps it twice, in the flat array \<open>state.placedComponents\<close> and in
  the per-type arrays of \<open>state.cellboard\<close>. The two arrays hold references to the same
  object; no function modelled here writes to a component after it is built, so the
  model stores the component by value in both places. The \<open>id\<close> of a component is
  \<open>Date.now() + Math.random()\<close>; the model takes it as an argument.

  The click handler and \<open>removeComponent\<close> get their coordinates from \<open>parseInt\<close>
  of the cell's \<open>data-x\<close> and \<open>data-y\<close> attributes, so they work with numbers, and
  the components they build carry numbers. The hardware scan builds its components
  with the attribute strings themselves; a stored coordinate is therefore a number or a
  string.
\<close>

datatype coord = Num int | Str string

record component =
  c_type :: string
  c_number :: nat
  c_strength :: string
  c_x :: coord
  c_y :: coord
  c_id :: real
  c_customName :: "string option"
  c_parameters :: "(string \<times> real) list"

record state =
  currentComponent :: "string option"
  currentStrength :: string
  placedComponents :: "component list"
  componentCounts :: "(string \<times> nat) list"
  cellboard :: "(string \<times> component list) list"

text \<open>
  \<open>comp.x === x && comp.y === y\<close>, the predicate of the searches in
  \<open>removeComponent\<close>: strict equality with a number holds for that same number only.
\<close>

definition at_cell :: "int \<Rightarrow> int \<Rightarrow> component \<Rightarrow> bool" where
  "at_cell x y cpt \<longleftrightarrow> c_x cpt = Num x \<and> c_y cpt = Num y"

text \<open>
  \<open>c.x == x && c.y == y\<close>, the predicate of the click handler's search: loose
  equality converts a string to a number first. \<open>ToNumber\<close> is that conversion of the
  language, restricted to the integers that coordinates are; it gives nothing where the
  string converts to \<open>NaN\<close> or to a number that is not an integer.
\<close>

definition loose_eq :: "(string \<Rightarrow> int option) \<Rightarrow> coord \<Rightarrow> int \<Rightarrow> bool" where
  "loose_eq ToNumber c x = (case c of Num n \<Rightarrow> n = x | Str s \<Rightarrow> ToNumber s = Some x)"

definition loosely_at_cell :: "(string \<Rightarrow> int option) \<Rightarrow> int \<Rightarrow> int \<Rightarrow> component \<Rightarrow> bool" where
  "loosely_at_cell ToNumber x y cpt \<longleftrightarrow> loose_eq ToNumber (c_x cpt) x \<and> loose_eq ToNumber (c_y cpt) y"

text \<open>
  \<open>i = xs.findIndex(P); if (i !== -1) xs.splice(i, 1)\<close>: the array without its first
  element satisfying \<open>P\<close>. The element that \<open>splice\<close> returns is \<open>find P xs\<close>.
\<close>

fun splice_first :: "('a \<Rightarrow> bool) \<Rightarrow> 'a list \<Rightarrow> 'a list" where
  "splice_first P [] = []"
| "splice_first P (c # cs) = (if P c then cs else c # splice_first P cs)"

text \<open>\<open>String.prototype.toLowerCase\<close> on the ASCII letters of the palette names.\<close>

definition lower_char :: "char \<Rightarrow> char" where
  "lower_char c = (if CHR ''A'' \<le> c \<and> c \<le> CHR ''Z'' then char_of (of_char c + (32::nat)) else c)"

definition toLowerCase :: "string \<Rightarrow> string" where
  "toLowerCase s = map lower_char s"

text \<open>\<open>s.replace(' ', '_')\<close> with a string pattern replaces the first blank only.\<close>

fun replace_first_blank :: "string \<Rightarrow> string" where
  "replace_first_blank [] = []"
| "replace_first_blank (c # cs) = (if c = CHR '' '' then CHR ''_'' # cs else c # replace_first_blank cs)"

definition baseType_of :: "string \<Rightarrow> string" where
  "baseType_of t = replace_first_blank (toLowerCase t)"

text \<open>
  \<open>if (!counts[k]) counts[k] = 1; else counts[k]++\<close>: a missing key and the count
  \<open>0\<close> are both falsy.
\<close>

definition bump_count :: "string \<Rightarrow> (string \<times> nat) list \<Rightarrow> (string \<times> nat) list" where
  "bump_count k counts =
     (case map_of counts k of
        None \<Rightarrow> AList.update k 1 counts
      | Some n \<Rightarrow> (if n = 0 then AList.update k 1 counts else AList.update k (n + 1) counts))"

definition count_of :: "string \<Rightarrow> (string \<times> nat) list \<Rightarrow> nat" where
  "count_of k counts = (case map_of counts k of None \<Rightarrow> 0 | Some n \<Rightarrow> n)"

text \<open>\<open>state.cellboard[type]\<close>, an array once the handler has created a missing one.\<close>

definition cellboard_get :: "(string \<times> component list) list \<Rightarrow> string \<Rightarrow> component list" where
  "cellboard_get cb t = (case map_of cb t of None \<Rightarrow> [] | Some comps \<Rightarrow> comps)"

definition cellboard_push :: "string \<Rightarrow> component \<Rightarrow> (string \<times> component list) list \<Rightarrow> (string \<times> component list) list" where
  "cellboard_push t cpt cb = AList.update t (cellboard_get cb t @ [cpt]) cb"

text \<open>
  The object literal that the click handler of \<open>setupCells\<close> builds, from the state as it
  is when the handler starts: \<open>strength: state.currentStrength || 'norm'\<close> takes
  \<open>'norm'\<close> for the empty string.
\<close>

definition new_component :: "string \<Rightarrow> int \<Rightarrow> int \<Rightarrow> real \<Rightarrow> state \<Rightarrow> component" where
  "new_component t x y ident s =
     \<lparr> c_type = t,
       c_number = count_of (baseType_of t) (bump_count (baseType_of t) (componentCounts s)),
       c_strength = (if currentStrength s = [] then ''norm'' else currentStrength s),
       c_x = Num x, c_y = Num y, c_id = ident, c_customName = None, c_parameters = [] \<rparr>"

text \<open>
  The click handler of a board cell at \<open>(x, y)\<close>. \<open>has_component\<close> is
  \<open>this.classList.contains('has-component')\<close>, a fact of the document, not of
  \<open>state\<close>. With no selection (\<open>null\<close>, the empty string or the string
  \<open>'undefined'\<close>) the handler only shows a hint. The calls that draw the cell and
  register connector ports do not write \<open>state.placedComponents\<close> or
  \<open>state.cellboard\<close>.
\<close>

definition cell_click ::
    "(string \<Rightarrow> int option) \<Rightarrow> bool \<Rightarrow> int \<Rightarrow> int \<Rightarrow> real \<Rightarrow> state \<Rightarrow> state" where
  "cell_click ToNumber has_component x y ident s =
     (case currentComponent s of
        None \<Rightarrow> s
      | Some t \<Rightarrow>
          if t = [] \<or> t = ''undefined'' then s
          else
            let placed = (if has_component then splice_first (loosely_at_cell ToNumber x y) (placedComponents s)
                          else placedComponents s);
                cpt = new_component t x y ident s
            in s \<lparr> placedComponents := placed @ [cpt],
                   componentCounts := bump_count (baseType_of t) (componentCounts s),
                   cellboard := cellboard_push t cpt (cellboard s),
                   currentComponent := None,
                   currentStrength := ''norm'' \<rparr>)"

text \<open>
  The loop of \<open>removeComponent\<close> over \<open>Object.entries(state.cellboard)\<close>: the first
  type whose array has a component at the cell loses that component, and the loop
  breaks.
\<close>

fun cellboard_remove :: "(component \<Rightarrow> bool) \<Rightarrow> (string \<times> component list) list \<Rightarrow>
    (string \<times> component list) list \<times> component option" where
  "cellboard_remove P [] = ([], None)"
| "cellboard_remove P ((t, comps) # rest) =
     (case find P comps of
        Some c \<Rightarrow> ((t, splice_first P comps) # rest, Some c)
      | None \<Rightarrow> (case cellboard_remove P rest of (rest', r) \<Rightarrow> ((t, comps) # rest', r)))"

text \<open>
  \<open>removeComponent(x, y)\<close>. \<open>cell_found\<close> says whether \<open>document.querySelector\<close>
  finds the cell; without it the function returns \<open>null\<close> at once. The cellboard is
  searched only under \<open>if (!removed)\<close>, that is when \<open>placedComponents\<close> had no
  component at the cell. The result is the new state and the returned component.
\<close>

definition removeComponent :: "bool \<Rightarrow> int \<Rightarrow> int \<Rightarrow> state \<Rightarrow> state \<times> component option" where
  "removeComponent cell_found x y s =
     (if \<not> cell_found then (s, None)
      else
        case find (at_cell x y) (placedComponents s) of
          Some c \<Rightarrow> (s \<lparr> placedComponents := splice_first (at_cell x y) (placedComponents s) \<rparr>, Some c)
        | None \<Rightarrow>
            (case cellboard_remove (at_cell x y) (cellboard s) of
               (cb, r) \<Rightarrow> (s \<lparr> cellboard := cb \<rparr>, r)))"

text \<open>The \<open>state\<close> literal at the top of the file: nothing placed, one empty array per type.\<close>

definition initial_state :: state where
  "initial_state =
     \<lparr> currentComponent = None, currentStrength = ''norm'', placedComponents = [],
       componentCounts = [],
       cellboard = [(''Promoter'', []), (''RBS'', []), (''CDS'', []), (''Terminator'', []),
         (''Repressor Start'', []), (''Repressor End'', []), (''Activator Start'', []),
         (''Activator End'', []), (''Inducer Start'', []), (''Inducer End'', []),
         (''Inhibitor Start'', []), (''Inhibitor End'', [])] \<rparr>"

text \<open>
  The click handler of a palette component: the clicked type becomes the selection, at
  normal strength.
\<close>

definition select_component :: "string \<Rightarrow> state \<Rightarrow> state" where
  "select_component componentType s =
     s \<lparr> currentComponent := Some componentType, currentStrength := ''norm'' \<rparr>"

section \<open>Parameter overrides of the \<open>/simulate\<close> endpoint (app.py)\<close>

text \<open>
  The endpoint's override logic is the Python listing in the architecture notes of the
  repository, ``Complete Override Code Flow''. It works on \<open>COMPONENT_CONSTANTS\<close>, a
  dictionary from part labels to dictionaries of parameters. A parameter dictionary is
  modelled by its \<open>'type'\<close> entry, a string when present, and its numeric entries, an
  association list in insertion order. Numbers are Python floats and are modelled by
  real numbers.

  \<open>adjusted_constants = COMPONENT_CONSTANTS.copy()\<close> is a shallow copy: the new
  dictionary has the same labels and shares the parameter dictionaries, and the
  assignments of the listing write into those. The function below gives the contents
  of \<open>adjusted_constants\<close> when \<open>simulate\<close> hands it to the circuit builder, from
  the contents of \<open>COMPONENT_CONSTANTS\<close> when the request arrives.
\<close>

record entry =
  e_type :: "string option"
  e_fields :: "(string \<times> real) list"

type_synonym registry = "(string \<times> entry) list"

text \<open>The JSON body of the request: \<open>data.get('dial', {})\<close>, \<open>data.get('apply_dial', True)\<close>.\<close>

record request =
  dial :: "(string \<times> real) list option"
  apply_dial :: "bool option"

text \<open>\<open>s.startswith(p)\<close>, \<open>sub in s\<close> and \<open>s.replace(old, new)\<close> of Python strings.\<close>

definition startswith :: "string \<Rightarrow> string \<Rightarrow> bool" where
  "startswith s p \<longleftrightarrow> take (length p) s = p"

fun py_in :: "string \<Rightarrow> string \<Rightarrow> bool" where
  "py_in sub [] \<longleftrightarrow> sub = []"
| "py_in sub (c # cs) \<longleftrightarrow> startswith (c # cs) sub \<or> py_in sub cs"

function py_replace :: "string \<Rightarrow> string \<Rightarrow> string \<Rightarrow> string" where
  "py_replace old new s =
     (if old = [] then new @ concat (map (\<lambda>c. c # new) s)
      else if s = [] then []
      else if startswith s old then new @ py_replace old new (drop (length old) s)
      else hd s # py_replace old new (tl s))"
  by pat_completeness auto
termination
  by (relation "measure (\<lambda>(old, new, s). length s)") auto

declare py_replace.simps [simp del]

text \<open>
  One pass of the loop over \<open>dial_data.items()\<close>: the key of \<open>component_overrides\<close>
  and the dictionary stored under it, or nothing for a parameter name that no branch
  takes. The listing shows the promoter and the CDS branch and abbreviates the rest of
  the chain (``similar for rbs, translation rate, etc.''); \<open>elided\<close> stands for the
  branches not shown, which are reached only when the two shown ones do not apply.
\<close>

definition override_entry ::
    "(string \<Rightarrow> real \<Rightarrow> (string \<times> (string \<times> real) list) option) \<Rightarrow> string \<Rightarrow> real \<Rightarrow>
     (string \<times> (string \<times> real) list) option" where
  "override_entry elided param_name v =
     (if startswith param_name ''promoter'' \<and> py_in ''_strength'' param_name then
        Some (''promoter_'' @ py_replace ''_strength'' [] (py_replace ''promoter'' [] param_name),
              [(''strength'', v)])
      else if startswith param_name ''cds'' \<and> py_in ''_degradation_rate'' param_name then
        Some (''cds_'' @ py_replace ''_degradation_rate'' [] (py_replace ''cds'' [] param_name),
              [(''degradation_rate'', v)])
      else elided param_name v)"

text \<open>\<open>component_overrides[comp_key] = {...}\<close> for every item of the dial data, in order.\<close>

definition component_overrides ::
    "(string \<Rightarrow> real \<Rightarrow> (string \<times> (string \<times> real) list) option) \<Rightarrow> (string \<times> real) list \<Rightarrow>
     (string \<times> (string \<times> real) list) list" where
  "component_overrides elided dial_data =
     fold (\<lambda>(param_name, v) co.
             case override_entry elided param_name v of
               None \<Rightarrow> co
             | Some (comp_key, ov) \<Rightarrow> AList.update comp_key ov co)
          dial_data []"

text \<open>\<open>adjusted_constants[comp_name][param] = value\<close> for every item of \<open>overrides\<close>.\<close>

definition set_fields :: "(string \<times> real) list \<Rightarrow> entry \<Rightarrow> entry" where
  "set_fields overrides e =
     fold (\<lambda>(param, v) e'. e' \<lparr> e_fields := AList.update param v (e_fields e') \<rparr>) overrides e"

text \<open>The loop ``Apply individual overrides'': labels missing from the constants are skipped.\<close>

definition apply_overrides :: "(string \<times> (string \<times> real) list) list \<Rightarrow> registry \<Rightarrow> registry" where
  "apply_overrides co adjusted =
     fold (\<lambda>(comp_name, overrides) r.
             case map_of r comp_name of
               None \<Rightarrow> r
             | Some e \<Rightarrow> AList.update comp_name (set_fields overrides e) r)
          co adjusted"

text \<open>
  The body of the loop ``Global multipliers'' for one entry: two independent \<open>if\<close>
  statements, on the promoter's \<open>strength\<close> and on the CDS's \<open>degradation_rate\<close>.
\<close>

definition scale_field :: "string \<Rightarrow> string \<Rightarrow> real \<Rightarrow> entry \<Rightarrow> entry" where
  "scale_field comp_type field m e =
     (if e_type e = Some comp_type then
        (case map_of (e_fields e) field of
           None \<Rightarrow> e
         | Some original \<Rightarrow> e \<lparr> e_fields := AList.update field (original * m) (e_fields e) \<rparr>)
      else e)"

definition global_entry :: "real \<Rightarrow> real \<Rightarrow> entry \<Rightarrow> entry" where
  "global_entry global_transcription global_degradation e =
     scale_field ''cds'' ''degradation_rate'' global_degradation
       (scale_field ''promoter'' ''strength'' global_transcription e)"

text \<open>\<open>for comp_name in adjusted_constants\<close>: every label, its entry rewritten in place.\<close>

definition apply_globals :: "real \<Rightarrow> real \<Rightarrow> registry \<Rightarrow> registry" where
  "apply_globals global_transcription global_degradation adjusted =
     fold (\<lambda>comp_name r.
             case map_of r comp_name of
               None \<Rightarrow> r
             | Some e \<Rightarrow> AList.update comp_name (global_entry global_transcription global_degradation e) r)
          (map fst adjusted) adjusted"

text \<open>\<open>dial_data.get(key, 1.0)\<close>.\<close>

definition dial_get :: "(string \<times> real) list \<Rightarrow> string \<Rightarrow> real" where
  "dial_get dial_data k = (case map_of dial_data k of None \<Rightarrow> 1 | Some v \<Rightarrow> v)"

text \<open>
  The dictionary \<open>adjusted_constants\<close> that \<open>simulate\<close> passes to
  \<open>OntologyBuilderUnified\<close>. The guard is \<open>if apply_dial and dial_data\<close>: an empty
  dictionary is false.
\<close>

definition adjusted_constants ::
    "(string \<Rightarrow> real \<Rightarrow> (string \<times> (string \<times> real) list) option) \<Rightarrow> registry \<Rightarrow> request \<Rightarrow> registry" where
  "adjusted_constants elided COMPONENT_CONSTANTS data =
     (let dial_data = (case dial data of None \<Rightarrow> [] | Some d \<Rightarrow> d);
          flag = (case apply_dial data of None \<Rightarrow> True | Some b \<Rightarrow> b)
      in if flag \<and> dial_data \<noteq> [] then
           apply_globals (dial_get dial_data ''global_transcription_rate'')
                         (dial_get dial_data ''global_degradation_rate'')
             (apply_overrides (component_overrides elided dial_data) COMPONENT_CONSTANTS)
         else COMPONENT_CONSTANTS)"

text \<open>The \<open>strength\<close> that a label has in a dictionary of constants, if any.\<close>

definition strength_of :: "registry \<Rightarrow> string \<Rightarrow> real option" where
  "strength_of reg label = (case map_of reg label of None \<Rightarrow> None | Some e \<Rightarrow> map_of (e_fields e) ''strength'')"

text \<open>The constants of the notes' step-by-step example (``STEP 1'').\<close>

definition example_constants :: registry where
  "example_constants =
     [(''promoter_1'', \<lparr> e_type = Some ''promoter'', e_fields = [(''strength'', 5)] \<rparr>),
      (''promoter_2'', \<lparr> e_type = Some ''promoter'', e_fields = [(''strength'', 5)] \<rparr>),
      (''cds_1'', \<lparr> e_type = None, e_fields = [(''degradation_rate'', 1), (''translation_rate'', 7)] \<rparr>)]"

subsection \<open>The request that the pages send (script.js and eeprom.js)\<close>

text \<open>
  What both pages put into the request when the toggle \<open>enable_dial_params\<close> is off:
  the five global parameters at \<open>1.0\<close> and no component parameter.
\<close>

definition neutral_dial :: "(string \<times> real) list" where
  "neutral_dial =
     [(''global_transcription_rate'', 1), (''global_translation_rate'', 1),
      (''global_degradation_rate'', 1), (''temperature_factor'', 1),
      (''resource_availability'', 1)]"

text \<open>
  \<open>runSimulation\<close> of script.js. \<open>toggle\<close> is the checkbox: missing from the page, or
  present and checked or not; \<open>collected\<close> is the result of \<open>collectDialParameters()\<close>.
\<close>

definition runSimulation_request :: "bool option \<Rightarrow> (string \<times> real) list \<Rightarrow> request" where
  "runSimulation_request toggle collected =
     (let applyDial = (case toggle of None \<Rightarrow> False | Some checked \<Rightarrow> checked)
      in \<lparr> dial = Some (if \<not> applyDial then neutral_dial else collected),
           apply_dial = Some applyDial \<rparr>)"

text \<open>
  \<open>runSimulationFromPlacedComponents\<close> of eeprom.js. Without a dial form the request
  has no \<open>dial\<close> at all; \<open>collected\<close> is what the page gathers from the form and from
  the components' parameters when the toggle is on.
\<close>

definition runSimulationFromPlacedComponents_request ::
    "bool \<Rightarrow> bool option \<Rightarrow> (string \<times> real) list \<Rightarrow> request" where
  "runSimulationFromPlacedComponents_request dialForm toggle collected =
     (if dialForm then
        let includeDial = (case toggle of None \<Rightarrow> False | Some checked \<Rightarrow> checked)
        in \<lparr> dial = Some (if includeDial then collected else neutral_dial),
             apply_dial = Some includeDial \<rparr>
      else \<lparr> dial = None, apply_dial = Some False \<rparr>)"

subsection \<open>The constants across requests\<close>

text \<open>
  \<open>COMPONENT_CONSTANTS\<close> is a module-level dictionary whose values are dictionaries
  themselves. To follow what one request leaves for the next, the parameter dictionaries
  are kept in a store, and a dictionary of constants maps each label to the address of
  its parameter dictionary. \<open>COMPONENT_CONSTANTS.copy()\<close> builds a new dictionary with
  the same labels and the same addresses.
\<close>

type_synonym address = nat

type_synonym store = "(address \<times> entry) list"

type_synonym constants_dict = "(string \<times> address) list"

text \<open>What a dictionary of constants holds, read through the store.\<close>

definition contents :: "constants_dict \<Rightarrow> store \<Rightarrow> registry" where
  "contents d h =
     concat (map (\<lambda>(lbl, a). case map_of h a of None \<Rightarrow> [] | Some e \<Rightarrow> [(lbl, e)]) d)"

text \<open>An assignment \<open>adjusted_constants[comp_name][...] = ...\<close> writes the dictionary at the label's address.\<close>

definition write_entry :: "address \<Rightarrow> (entry \<Rightarrow> entry) \<Rightarrow> store \<Rightarrow> store" where
  "write_entry a f h = (case map_of h a of None \<Rightarrow> h | Some e \<Rightarrow> AList.update a (f e) h)"

definition apply_overrides_store ::
    "(string \<times> (string \<times> real) list) list \<Rightarrow> constants_dict \<Rightarrow> store \<Rightarrow> store" where
  "apply_overrides_store co adjusted h =
     fold (\<lambda>(comp_name, overrides) h'.
             case map_of adjusted comp_name of
               None \<Rightarrow> h'
             | Some a \<Rightarrow> write_entry a (set_fields overrides) h')
          co h"

definition apply_globals_store :: "real \<Rightarrow> real \<Rightarrow> constants_dict \<Rightarrow> store \<Rightarrow> store" where
  "apply_globals_store global_transcription global_degradation adjusted h =
     fold (\<lambda>comp_name h'.
             case map_of adjusted comp_name of
               None \<Rightarrow> h'
             | Some a \<Rightarrow> write_entry a (global_entry global_transcription global_degradation) h')
          (map fst adjusted) h"

text \<open>
  One request handled by \<open>simulate\<close>, on the store: the dictionary \<open>adjusted_constants\<close>
  that goes to the builder, and the store as the request leaves it. The module's
  \<open>COMPONENT_CONSTANTS\<close> is never assigned, so the next request reads the same
  dictionary through the new store.
\<close>

definition simulate_store ::
    "(string \<Rightarrow> real \<Rightarrow> (string \<times> (string \<times> real) list) option) \<Rightarrow> constants_dict \<Rightarrow> store \<Rightarrow>
     request \<Rightarrow> constants_dict \<times> store" where
  "simulate_store elided COMPONENT_CONSTANTS h data =
     (let dial_data = (case dial data of None \<Rightarrow> [] | Some d \<Rightarrow> d);
          flag = (case apply_dial data of None \<Rightarrow> True | Some b \<Rightarrow> b);
          adjusted = COMPONENT_CONSTANTS
      in if flag \<and> dial_data \<noteq> [] then
           (adjusted,
            apply_globals_store (dial_get dial_data ''global_transcription_rate'')
                                (dial_get dial_data ''global_degradation_rate'') adjusted
              (apply_overrides_store (component_overrides elided dial_data) adjusted h))
         else (adjusted, h))"

text \<open>The example constants as the module creates them: one parameter dictionary per label.\<close>

definition example_dict :: constants_dict where
  "example_dict = [(''promoter_1'', 0), (''promoter_2'', 1), (''cds_1'', 2)]"

definition example_store :: store where
  "example_store =
     [(0, \<lparr> e_type = Some ''promoter'', e_fields = [(''strength'', 5)] \<rparr>),
      (1, \<lparr> e_type = Some ''promoter'', e_fields = [(''strength'', 5)] \<rparr>),
      (2, \<lparr> e_type = None, e_fields = [(''degradation_rate'', 1), (''translation_rate'', 7)] \<rparr>)]"

section \<open>Circuit building (\<open>circuit_model.py\<close>, as listed in the developer guide)\<close>

text \<open>
  A \<open>Component\<close> object, with the attributes that the listings of the repository's
  notes read or write. \<open>part_type\<close> is the attribute \<open>type\<close>, \<open>reg_position\<close> the
  attribute \<open>position\<close> (\<open>"start"\<close> or \<open>"end"\<close> for a regulator).
\<close>

record part =
  label :: string
  part_type :: string
  parameters :: "(string \<times> real) list"
  is_regulator :: bool
  reg_position :: "string option"
  reg_key :: "string option"
  circuit_name :: "string option"
  global_idx :: nat

text \<open>
  A circuit as \<open>_finalize_block\<close> stores it: its name and the dictionaries of its
  components. \<open>comp.to_dict()\<close> is modelled by the component itself as it is when the
  block is finalized; \<open>comp["name"]\<close> of the dictionary is the component's label and
  \<open>comp["type"]\<close> its type.
\<close>

record circuit =
  name :: string
  components :: "part list"

text \<open>One family of \<open>self.regulators\<close>: \<open>{"starts", "ends", "type", "is_floating"}\<close>.\<close>

record regulator_family =
  starts :: "part list"
  ends :: "part list"
  reg_type :: "string option"
  is_floating :: "bool option"

text \<open>A record of \<open>self.regulations\<close> as the floating case of \<open>_build_regulations\<close> writes it.\<close>

record regulation =
  source :: "string option"
  target :: string
  kind :: string

record builder =
  constants :: registry
  items :: "part option list"
  circuits :: "circuit list"
  regulators :: "(string \<times> regulator_family) list"
  regulations :: "regulation list"

text \<open>The decimal digits of a number, for the f-string \<open>f"circuit_{n}"\<close>.\<close>

function str_nat :: "nat \<Rightarrow> string" where
  "str_nat n = (if n < 10 then [char_of (48 + n)] else str_nat (n div 10) @ [char_of (48 + n mod 10)])"
  by pat_completeness auto
termination
  by (relation "measure id") auto

declare str_nat.simps [simp del]

text \<open>\<open>params.get(key, default)\<close> on \<open>params = self.constants.get(comp.label, {})\<close>.\<close>

definition params_get :: "registry \<Rightarrow> string \<Rightarrow> string \<Rightarrow> real \<Rightarrow> real" where
  "params_get consts lbl key dflt =
     (case map_of consts lbl of
        None \<Rightarrow> dflt
      | Some e \<Rightarrow> (case map_of (e_fields e) key of None \<Rightarrow> dflt | Some v \<Rightarrow> v))"

text \<open>Step 1 of \<open>_finalize_block\<close> for one component: parameters from the constants.\<close>

definition assign_parameters :: "registry \<Rightarrow> part \<Rightarrow> part" where
  "assign_parameters consts cpt =
     (if part_type cpt = ''promoter'' then
        cpt \<lparr> parameters := AList.update ''strength'' (params_get consts (label cpt) ''strength'' 1) (parameters cpt) \<rparr>
      else if part_type cpt = ''rbs'' then
        cpt \<lparr> parameters := AList.update ''efficiency'' (params_get consts (label cpt) ''efficiency'' 1) (parameters cpt) \<rparr>
      else if part_type cpt = ''cds'' then
        cpt \<lparr> parameters :=
                AList.update ''degradation_rate'' (params_get consts (label cpt) ''degradation_rate'' (1 / 10))
                  (AList.update ''translation_rate'' (params_get consts (label cpt) ''translation_rate'' 5)
                     (parameters cpt)) \<rparr>
      else cpt)"

text \<open>\<open>any(c.type == "cds" for c in comps)\<close>.\<close>

definition has_cds :: "part list \<Rightarrow> bool" where
  "has_cds comps \<longleftrightarrow> list_ex (\<lambda>c. part_type c = ''cds'') comps"

text \<open>
  \<open>_finalize_block(comps)\<close>: parameters are assigned; a block without a CDS ends
  there, by the \<open>return\<close> of step 2, and nothing is appended to \<open>self.circuits\<close>;
  a block with a CDS is named after the number of circuits so far, its components get
  the name, and the circuit is appended. The listing leaves the detection of misplaced
  components (step 4) as comments; it does not decide what is appended. The components
  are the objects of \<open>self.items\<close> and are written in place, also in a block without a
  CDS: the function gives the builder and the components as it leaves them.
\<close>

definition finalize_block :: "builder \<Rightarrow> part list \<Rightarrow> builder \<times> part list" where
  "finalize_block b comps =
     (let comps1 = map (assign_parameters (constants b)) comps
      in if \<not> has_cds comps1 then (b, comps1)
         else
           let nm = ''circuit_'' @ str_nat (length (circuits b) + 1);
               comps2 = map (\<lambda>c. c \<lparr> circuit_name := Some nm \<rparr>) comps1
           in (b \<lparr> circuits := circuits b @ [\<lparr> name = nm, components = comps2 \<rparr>] \<rparr>, comps2))"

text \<open>\<open>if block: self._finalize_block(block)\<close>, at a boundary.\<close>

definition close_block :: "builder \<Rightarrow> part list \<Rightarrow> builder \<times> part list" where
  "close_block b block = (if block \<noteq> [] then finalize_block b block else (b, []))"

text \<open>
  The loop of \<open>build\<close> over \<open>self.items + [None]\<close>: \<open>None\<close> closes the current
  block, which is finalized when it is not empty. The second component of the result is
  the list that was iterated, with the components as the loop leaves them.
\<close>

fun build_loop :: "builder \<Rightarrow> part list \<Rightarrow> part option list \<Rightarrow> builder \<times> part option list" where
  "build_loop b block [] = (b, map Some block)"
| "build_loop b block (None # rest) =
     (case close_block b block of
        (b', blk) \<Rightarrow>
          (case build_loop b' [] rest of
             (b'', rest') \<Rightarrow> (b'', map Some blk @ None # rest')))"
| "build_loop b block (Some item # rest) = build_loop b (block @ [item]) rest"

text \<open>
  The builder after the loop: \<open>self.items\<close> holds the components as written, without
  the \<open>None\<close> that the loop appended to its own copy of the list.
\<close>

definition build_blocks :: "builder \<Rightarrow> builder" where
  "build_blocks b =
     (case build_loop b [] (items b @ [None]) of
        (b', its) \<Rightarrow> b' \<lparr> items := butlast its \<rparr>)"

text \<open>
  The blocks of an item list, for stating what \<open>build\<close> does: the maximal non-empty
  runs of components between boundaries, the first one continuing \<open>block\<close>.
\<close>

fun blocks_from :: "'a list \<Rightarrow> 'a option list \<Rightarrow> 'a list list" where
  "blocks_from block [] = (if block = [] then [] else [block])"
| "blocks_from block (None # rest) =
     (if block = [] then blocks_from [] rest else block # blocks_from [] rest)"
| "blocks_from block (Some x # rest) = blocks_from (block @ [x]) rest"

text \<open>A structural part as the parser leaves it, and an empty builder, for examples.\<close>

definition mk_part :: "string \<Rightarrow> string \<Rightarrow> nat \<Rightarrow> part" where
  "mk_part lbl ty idx =
     \<lparr> label = lbl, part_type = ty, parameters = [], is_regulator = False,
       reg_position = None, reg_key = None, circuit_name = None, global_idx = idx \<rparr>"

definition new_builder :: "registry \<Rightarrow> part option list \<Rightarrow> builder" where
  "new_builder consts its =
     \<lparr> constants = consts, items = its, circuits = [], regulators = [], regulations = [] \<rparr>"

section \<open>Regulation records (\<open>_build_regulations\<close>, as listed in the developer guide)\<close>

datatype py_error = IndexError | KeyError

text \<open>A value inside an f-string: \<open>None\<close> prints as \<open>None\<close>.\<close>

definition fmt_type :: "string option \<Rightarrow> string" where
  "fmt_type ty = (case ty of None \<Rightarrow> ''None'' | Some s \<Rightarrow> s)"

text \<open>
  Case 1 of \<open>_build_regulations\<close>, the floating family: the inner loop over the
  components of one circuit. Every promoter gets a record appended, whose source is
  \<open>starts[0].label\<close>; indexing an empty \<open>starts\<close> raises \<open>IndexError\<close>.
\<close>

fun floating_components ::
    "regulator_family \<Rightarrow> part list \<Rightarrow> regulation list \<Rightarrow> py_error + regulation list" where
  "floating_components fam [] regs = Inr regs"
| "floating_components fam (c # cs) regs =
     (if part_type c = ''promoter'' then
        (case starts fam of
           [] \<Rightarrow> Inl IndexError
         | s # _ \<Rightarrow>
             floating_components fam cs
               (regs @ [\<lparr> source = Some (label s), target = label c,
                          kind = ''environmental_'' @ fmt_type (reg_type fam) \<rparr>]))
      else floating_components fam cs regs)"

text \<open>The outer loop, \<open>for circuit in self.circuits\<close>.\<close>

fun floating_circuits ::
    "regulator_family \<Rightarrow> circuit list \<Rightarrow> regulation list \<Rightarrow> py_error + regulation list" where
  "floating_circuits fam [] regs = Inr regs"
| "floating_circuits fam (circ # rest) regs =
     (case floating_components fam (components circ) regs of
        Inl e \<Rightarrow> Inl e
      | Inr regs' \<Rightarrow> floating_circuits fam rest regs')"

text \<open>
  One pass of the loop over \<open>self.regulators.items()\<close>. \<open>reg_data["is_floating"]\<close> is
  true for \<open>True\<close> only (the default of the dictionary is \<open>None\<close>). The positional case
  calls helpers (\<open>extract_gene_from_regulator\<close>, \<open>matches_gene\<close>,
  \<open>find_promoter_before\<close>, \<open>find_promoter_after\<close>) whose bodies the repository's notes
  do not give; \<open>positional\<close> stands for that case.
\<close>

definition family_regulations ::
    "(string \<Rightarrow> regulator_family \<Rightarrow> builder \<Rightarrow> py_error + regulation list) \<Rightarrow>
     string \<Rightarrow> regulator_family \<Rightarrow> builder \<Rightarrow> py_error + regulation list" where
  "family_regulations positional key fam b =
     (if is_floating fam = Some True then floating_circuits fam (circuits b) (regulations b)
      else positional key fam b)"

fun build_regulations_loop ::
    "(string \<Rightarrow> regulator_family \<Rightarrow> builder \<Rightarrow> py_error + regulation list) \<Rightarrow>
     (string \<times> regulator_family) list \<Rightarrow> builder \<Rightarrow> py_error + builder" where
  "build_regulations_loop positional [] b = Inr b"
| "build_regulations_loop positional ((key, fam) # rest) b =
     (case family_regulations positional key fam b of
        Inl e \<Rightarrow> Inl e
      | Inr regs \<Rightarrow> build_regulations_loop positional rest (b \<lparr> regulations := regs \<rparr>))"

definition build_regulations ::
    "(string \<Rightarrow> regulator_family \<Rightarrow> builder \<Rightarrow> py_error + regulation list) \<Rightarrow> builder \<Rightarrow> py_error + builder" where
  "build_regulations positional b = build_regulations_loop positional (regulators b) b"

text \<open>Every promoter of every circuit, in the order of the two loops.\<close>

definition all_promoters :: "circuit list \<Rightarrow> part list" where
  "all_promoters circs = concat (map (\<lambda>c. filter (\<lambda>p. part_type p = ''promoter'') (components c)) circs)"

text \<open>A floating family and a finalized circuit, for examples.\<close>

definition example_floating_family :: regulator_family where
  "example_floating_family =
     \<lparr> starts = [(mk_part ''floating_repressor'' ''repressor'' 5) \<lparr> is_regulator := True \<rparr>],
       ends = [], reg_type = Some ''repression'', is_floating = Some True \<rparr>"

definition example_circuit :: circuit where
  "example_circuit =
     \<lparr> name = ''circuit_1'',
       components = [mk_part ''promoter_1'' ''promoter'' 0, mk_part ''rbs_1'' ''rbs'' 1,
                     mk_part ''cds_1'' ''cds'' 2] \<rparr>"

subsection \<open>The constitutive fallback\<close>

text \<open>
  Modelled from the spec: the governing promoter of a circuit, which the fallback of
  \<open>build\<close> needs and no listing of the repository's notes defines. The spec:
  ``only the first promoter in a block is treated as authoritative''.
\<close>

definition governing_promoter :: "circuit \<Rightarrow> part option" where
  "governing_promoter circ = find (\<lambda>p. part_type p = ''promoter'') (components circ)"

definition targets_promoter :: "string \<Rightarrow> regulation \<Rightarrow> bool" where
  "targets_promoter p r \<longleftrightarrow> target r = p"

text \<open>
  Modelled from the spec: the body of \<open>_add_constitutive_regulations\<close>, which \<open>build\<close>
  calls last and which the repository's notes only name. The spec: ``after all explicit
  regulations are built, any promoter/CDS pair with no assigned regulation record gets
  one synthetic \<open>constitutive\<close> record''; the source of an environmental or a
  constitutive record is null. The pairs are taken circuit by circuit, every CDS of a
  circuit with the circuit's governing promoter.
\<close>

definition constitutive_record :: "string \<Rightarrow> regulation" where
  "constitutive_record p = \<lparr> source = None, target = p, kind = ''constitutive'' \<rparr>"

definition add_constitutive_cds :: "string \<Rightarrow> regulation list \<Rightarrow> regulation list" where
  "add_constitutive_cds p regs =
     (if list_ex (targets_promoter p) regs then regs else regs @ [constitutive_record p])"

definition add_constitutive_circuit :: "circuit \<Rightarrow> regulation list \<Rightarrow> regulation list" where
  "add_constitutive_circuit circ regs =
     (case governing_promoter circ of
        None \<Rightarrow> regs
      | Some p \<Rightarrow>
          fold (\<lambda>cds rs. add_constitutive_cds (label p) rs)
               (filter (\<lambda>c. part_type c = ''cds'') (components circ)) regs)"

definition add_constitutive_regulations :: "circuit list \<Rightarrow> regulation list \<Rightarrow> regulation list" where
  "add_constitutive_regulations circs regs = fold add_constitutive_circuit circs regs"

text \<open>The number of records that target a promoter.\<close>

definition records_for :: "string \<Rightarrow> regulation list \<Rightarrow> nat" where
  "records_for p regs = length (filter (targets_promoter p) regs)"

text \<open>
  A circuit calls for a record on promoter \<open>q\<close>: \<open>q\<close> is its governing promoter and
  the circuit has a CDS.
\<close>

definition triggers :: "circuit \<Rightarrow> string \<Rightarrow> bool" where
  "triggers circ q \<longleftrightarrow> map_option label (governing_promoter circ) = Some q \<and> has_cds (components circ)"

section \<open>ODE setup (\<open>simulate_circuit\<close>, as listed in the repository's notes)\<close>

text \<open>
  The per-protein dictionary of \<open>cds_params\<close>, as the architecture notes list its
  construction. \<open>promoter\<close> and \<open>rbs\<close> are the dictionaries
  \<open>find_promoter(circuit)['parameters']\<close> and \<open>find_rbs(circuit)['parameters']\<close>,
  \<open>cpt\<close> is \<open>comp['parameters']\<close> of the CDS; the five values are read by
  subscript, which raises \<open>KeyError\<close> for a missing key. The production rate is the
  statement that the notes quote from \<open>circuit_model.py\<close>, line 829:
  \<open>kprod = prom_s * rbs_e * 1.0\<close>. The translation rate is read but is not a factor
  (the notes' table of constants: ``currently not multiplied, but stored''; the result
  page of script.js: \<open>kprod = promoter_strength * RBS_efficiency\<close>). The basal rate is
  \<open>k0 = 0.01 * kprod\<close>.
\<close>

record cds_pars =
  k0 :: real
  kprod :: real
  degradation :: real
  initial_conc :: real



text \<open>
  The Hill term of one regulation in \<open>rhs\<close>. The branch is chosen by a substring test on
  the regulation's type; a type with neither substring assigns nothing to \<open>hill\<close>. The
  exponent is the integer Hill coefficient. Arithmetic is over the reals; a zero
  denominator, where the floating-point quotient is not a number, gives no value.
\<close>

definition hill :: "string \<Rightarrow> real \<Rightarrow> nat \<Rightarrow> real \<Rightarrow> real option" where
  "hill reg_kind Kd n source_conc =
     (if Kd ^ n + source_conc ^ n = 0 then None
      else if py_in ''repression'' reg_kind then Some (Kd ^ n / (Kd ^ n + source_conc ^ n))
      else if py_in ''activation'' reg_kind then Some (source_conc ^ n / (Kd ^ n + source_conc ^ n))
      else None)"

text \<open>\<open>f_total = np.prod(f_vals) if f_vals else 1.0\<close>.\<close>

definition f_total :: "real list \<Rightarrow> real" where
  "f_total f_vals = (if f_vals = [] then 1 else prod_list f_vals)"

text \<open>\<open>dpdt[i] = pars["k0"] + pars["kprod"] * f_total - pars["degradation"] * p[i]\<close>.\<close>

definition dpdt_i :: "cds_pars \<Rightarrow> real list \<Rightarrow> real \<Rightarrow> real" where
  "dpdt_i pars f_vals p_i = k0 pars + kprod pars * f_total f_vals - degradation pars * p_i"

text \<open>
  The initial conditions of the architecture notes' listing ``ODE Solution with Symmetry
  Breaking''. \<open>p0\<close> holds the \<open>init_conc\<close> of every CDS; \<open>has_regulatory_feedback\<close> is
  computed outside the listing. The seed is the fixed list of three values; every
  other case starts all proteins at \<open>0.01\<close>.
\<close>

definition initial_conditions :: "bool \<Rightarrow> real list \<Rightarrow> real list" where
  "initial_conditions has_regulatory_feedback p0 =
     (if length p0 \<ge> 3 \<and> has_regulatory_feedback \<and> list_all (\<lambda>p. p = 0) p0
      then [1, 1 / 10, 1 / 20]
      else replicate (length p0) (1 / 100))"

text \<open>\<open>t = np.linspace(0, 24, 200)\<close>.\<close>

definition time_points :: "real list" where
  "time_points = map (\<lambda>k. 24 * real k / 199) [0..<200]"

text \<open>
  \<open>sol = odeint(rhs, p0, t)\<close>. The integrator is SciPy's and is a parameter of the
  model; its result has one row per time point.
\<close>

definition solve ::
    "((real list \<Rightarrow> real \<Rightarrow> real list) \<Rightarrow> real list \<Rightarrow> real list \<Rightarrow> real list list) \<Rightarrow>
     (real list \<Rightarrow> real \<Rightarrow> real list) \<Rightarrow> bool \<Rightarrow> real list \<Rightarrow> real list list" where
  "solve odeint rhs has_regulatory_feedback p0 =
     odeint rhs (initial_conditions has_regulatory_feedback p0) time_points"

text \<open>
  The seed that the specification describes: the three values repeated cyclically, one
  per protein.
\<close>

definition cycling_seed :: "nat \<Rightarrow> real list" where
  "cycling_seed n = map (\<lambda>i. [1, 1 / 10, 1 / 20] ! (i mod 3)) [0..<n]"

section \<open>Properties of the board state\<close>

lemma find_append_last: "P c \<Longrightarrow> find P (xs @ [c]) \<noteq> None"
  by (induction xs) auto

lemma find_none_append: "find P xs = None \<Longrightarrow> P c \<Longrightarrow> find P (xs @ [c]) = Some c"
  by (induction xs) (auto split: if_splits)

lemma splice_first_none:
  "find P xs = None \<Longrightarrow> splice_first P (xs @ [c]) = (if P c then xs else xs @ [c])"
  by (induction xs) (auto split: if_splits)

lemma cellboard_get_push: "cpt \<in> set (cellboard_get (cellboard_push t cpt cb) t)"
  by (simp add: cellboard_get_def cellboard_push_def update_conv)

lemma at_cell_eq: "at_cell x y = (\<lambda>c. c_x c = Num x \<and> c_y c = Num y)"
  by (simp add: fun_eq_iff at_cell_def)

lemma find_splice_decompose:
  "find P xs = Some c \<Longrightarrow>
   \<exists>pre post. xs = pre @ c # post \<and> P c \<and> (\<forall>d \<in> set pre. \<not> P d) \<and> splice_first P xs = pre @ post"
proof (induction xs)
  case Nil
  then show ?case by simp
next
  case (Cons a xs)
  show ?case
  proof (cases "P a")
    case True
    with Cons.prems have "a = c" by simp
    with True show ?thesis by (intro exI[of _ "[]"] exI[of _ xs]) simp
  next
    case False
    with Cons.prems have "find P xs = Some c" by simp
    from Cons.IH[OF this] obtain pre post where
      d: "xs = pre @ c # post" "P c" "\<forall>d \<in> set pre. \<not> P d" "splice_first P xs = pre @ post"
      by blast
    with False show ?thesis by (intro exI[of _ "a # pre"] exI[of _ post]) simp
  qed
qed

text \<open>
  C10, as the specification states it, fails on a cell that is clicked twice. Neither the
  click handler nor \<open>updateCellDisplay\<close> gives the cell the class
  \<open>has-component\<close>, so the second click does not remove the first component's
  entry. \<open>removeComponent\<close> then removes the older entry, the promoter, and the
  component placed last, the RBS, stays in \<open>state.placedComponents\<close>.
\<close>

theorem removeComponent_stacked_cell_counterexample:
  "let s1 = cell_click (\<lambda>s. None) False 2 1 0 (select_component ''Promoter'' initial_state);
       s2 = cell_click (\<lambda>s. None) False 2 1 1 (select_component ''RBS'' s1);
       (s3, removed) = removeComponent True 2 1 s2
   in removed = Some \<lparr> c_type = ''Promoter'', c_number = 1, c_strength = ''norm'', c_x = Num 2,
                         c_y = Num 1, c_id = 0, c_customName = None, c_parameters = [] \<rparr>
      \<and> placedComponents s3 =
            [\<lparr> c_type = ''RBS'', c_number = 1, c_strength = ''norm'', c_x = Num 2,
               c_y = Num 1, c_id = 1, c_customName = None, c_parameters = [] \<rparr>]"
  by (simp add: cell_click_def select_component_def initial_state_def new_component_def Let_def
      baseType_of_def toLowerCase_def lower_char_def bump_count_def count_of_def
      removeComponent_def at_cell_def)

text \<open>
  C10, as the code has it. A component is placed by the click handler of a cell (a
  component type is selected), and \<open>removeComponent(x, y)\<close> is then called for the
  same cell. The call finds an entry at the cell in \<open>state.placedComponents\<close>, so it
  never reaches the cellboard search: \<open>state.cellboard\<close> is left as it was and
  \<open>state.cellboard[type]\<close> still holds the placed component. What the call removes
  from \<open>state.placedComponents\<close> and returns is the first entry whose coordinates are
  the numbers \<open>x\<close> and \<open>y\<close>; all other entries stay, in order. That entry is
  the placed component itself when no older entry has these coordinates, and the placed
  component is then gone from the array.
\<close>

theorem removeComponent_after_click_keeps_cellboard:
  assumes sel: "currentComponent s = Some t" and t1: "t \<noteq> []" and t2: "t \<noteq> ''undefined''"
  shows "let s1 = cell_click ToNumber has_component x y ident s;
             cpt = new_component t x y ident s;
             (s2, removed) = removeComponent True x y s1
         in cellboard s2 = cellboard s1
            \<and> cpt \<in> set (cellboard_get (cellboard s2) t)
            \<and> removed = find (\<lambda>c. c_x c = Num x \<and> c_y c = Num y) (placedComponents s1)
            \<and> (\<exists>pre post c.
                  placedComponents s1 = pre @ c # post \<and> removed = Some c
                  \<and> c_x c = Num x \<and> c_y c = Num y
                  \<and> (\<forall>d \<in> set pre. \<not> (c_x d = Num x \<and> c_y d = Num y))
                  \<and> placedComponents s2 = pre @ post)
            \<and> ((\<forall>d \<in> set (butlast (placedComponents s1)). \<not> (c_x d = Num x \<and> c_y d = Num y)) \<longrightarrow>
                  removed = Some cpt \<and> placedComponents s2 = butlast (placedComponents s1)
                  \<and> cpt \<notin> set (placedComponents s2))"
proof -
  let ?P = "\<lambda>c. c_x c = Num x \<and> c_y c = Num y"
  define placed where "placed = (if has_component then splice_first (loosely_at_cell ToNumber x y) (placedComponents s)
                          else placedComponents s)"
  define cpt where "cpt = new_component t x y ident s"
  define s1 where "s1 = cell_click ToNumber has_component x y ident s"
  have p1: "placedComponents s1 = placed @ [cpt]"
    using sel t1 t2 by (simp add: s1_def cell_click_def placed_def cpt_def Let_def)
  have cb1: "cellboard s1 = cellboard_push t cpt (cellboard s)"
    using sel t1 t2 by (simp add: s1_def cell_click_def placed_def cpt_def Let_def)
  have ac: "?P cpt" by (simp add: cpt_def new_component_def)
  obtain c where f: "find ?P (placedComponents s1) = Some c"
    using find_append_last[of ?P cpt placed] ac p1 by auto
  have r: "removeComponent True x y s1 =
      (s1 \<lparr> placedComponents := splice_first ?P (placedComponents s1) \<rparr>, Some c)"
    by (simp add: removeComponent_def at_cell_eq f)
  obtain pre post where d: "placedComponents s1 = pre @ c # post" "?P c"
      "\<forall>d \<in> set pre. \<not> ?P d" "splice_first ?P (placedComponents s1) = pre @ post"
    using find_splice_decompose[OF f] by blast
  have mem: "cpt \<in> set (cellboard_get (cellboard s1) t)"
    by (simp add: cb1 cellboard_get_push)
  have last: "c = cpt \<and> splice_first ?P (placedComponents s1) = placed \<and> cpt \<notin> set placed"
    if n: "\<forall>d \<in> set placed. \<not> ?P d"
  proof -
    have fn: "find ?P placed = None" using n by (simp add: find_None_iff)
    have "find ?P (placed @ [cpt]) = Some cpt"
      using find_none_append[of ?P placed cpt] fn ac by simp
    then have "c = cpt" using f p1 by simp
    moreover have "splice_first ?P (placedComponents s1) = placed"
      using splice_first_none[of ?P placed cpt] fn ac p1 by simp
    moreover have "cpt \<notin> set placed" using n ac by auto
    ultimately show ?thesis by simp
  qed
  have ex: "\<exists>pre post c'. placedComponents s1 = pre @ c' # post \<and> Some c = Some c'
      \<and> c_x c' = Num x \<and> c_y c' = Num y
      \<and> (\<forall>d \<in> set pre. \<not> ?P d) \<and> splice_first ?P (placedComponents s1) = pre @ post"
    using d by blast
  have cond: "(\<forall>d \<in> set (butlast (placedComponents s1)). \<not> ?P d) \<longrightarrow>
      Some c = Some cpt \<and> splice_first ?P (placedComponents s1) = butlast (placedComponents s1)
      \<and> cpt \<notin> set (splice_first ?P (placedComponents s1))
      \<and> cpt \<notin> set (butlast (placedComponents s1))"
    using last p1 by auto
  show ?thesis
    unfolding Let_def s1_def[symmetric] cpt_def[symmetric] r
    using mem f ex cond by simp
qed

theorem removeComponent_after_click_keeps_cellboard_witness:
  "let s0 = select_component ''Promoter'' initial_state;
       (s2, removed) = removeComponent True 2 1 (cell_click (\<lambda>s. None) False 2 1 0 s0)
   in currentComponent s0 = Some ''Promoter''
      \<and> (\<forall>d \<in> set (butlast (placedComponents (cell_click (\<lambda>s. None) False 2 1 0 s0))).
            \<not> (c_x d = Num 2 \<and> c_y d = Num 1))
      \<and> removed = Some (new_component ''Promoter'' 2 1 0 s0)
      \<and> placedComponents s2 = []
      \<and> new_component ''Promoter'' 2 1 0 s0 \<in> set (cellboard_get (cellboard s2) ''Promoter'')"
proof -
  define s0 where "s0 = select_component ''Promoter'' initial_state"
  have h1: "currentComponent s0 = Some ''Promoter''" by (simp add: s0_def select_component_def)
  have h2: "''Promoter'' \<noteq> []" and h3: "''Promoter'' \<noteq> ''undefined''" by simp_all
  have pl: "placedComponents (cell_click (\<lambda>s. None) False 2 1 0 s0) = [new_component ''Promoter'' 2 1 0 s0]"
    by (simp add: cell_click_def h1 Let_def) (simp add: s0_def select_component_def initial_state_def)
  show ?thesis
    using removeComponent_after_click_keeps_cellboard [OF h1 h2 h3, of "\<lambda>s. None" False 2 1 0] h1
    unfolding Let_def s0_def[symmetric]
    by (auto simp: pl split: prod.splits)
qed


section \<open>Properties of the parameter overrides\<close>

lemma override_entry_promoter1:
  "override_entry elided ''promoter1_strength'' v = Some (''promoter_1'', [(''strength'', v)])"
proof -
  have r: "py_replace ''_strength'' [] (py_replace ''promoter'' [] ''promoter1_strength'') = ''1''"
    by code_simp
  show ?thesis by (simp add: override_entry_def startswith_def r)
qed

lemma override_entry_global_transcription:
  "override_entry elided ''global_transcription_rate'' v = elided ''global_transcription_rate'' v"
  by (simp add: override_entry_def startswith_def)

lemma map_of_apply_globals_aux:
  "distinct ks \<Longrightarrow>
   map_of (fold (\<lambda>comp_name r. case map_of r comp_name of None \<Rightarrow> r
                  | Some e \<Rightarrow> AList.update comp_name (g e) r) ks r) k
   = (if k \<in> set ks then map_option g (map_of r k) else map_of r k)"
proof (induction ks arbitrary: r)
  case Nil
  then show ?case by simp
next
  case (Cons a ks)
  then show ?case
    by (cases "map_of r a") (auto simp: update_conv)
qed

lemma map_of_apply_globals:
  assumes "distinct (map fst reg)"
  shows "map_of (apply_globals gt gd reg) k = map_option (global_entry gt gd) (map_of reg k)"
proof -
  have "k \<notin> set (map fst reg) \<Longrightarrow> map_of reg k = None"
    by (simp add: map_of_eq_None_iff)
  then show ?thesis
    unfolding apply_globals_def
    using map_of_apply_globals_aux[OF assms, of "global_entry gt gd" reg k] by auto
qed

lemma strength_global_entry:
  "e_type e = Some ''promoter'' \<Longrightarrow> map_of (e_fields e) ''strength'' = Some v \<Longrightarrow>
   map_of (e_fields (global_entry gt gd e)) ''strength'' = Some (v * gt)"
  by (simp add: global_entry_def scale_field_def update_conv)

text \<open>
  C1. The constants give \<open>promoter_1\<close> the type \<open>promoter\<close> and the strength
  \<open>5.0\<close>; the request carries \<open>promoter1_strength = 10.0\<close> and
  \<open>global_transcription_rate = 1.5\<close> (in either order) with overrides enabled. The
  strength handed to the builder is \<open>15.0\<close>: the individual override replaces the
  default first, and the global multiplier then scales the overridden value, so the
  result is not \<open>5.0 * 1.5 = 7.5\<close>. The branches of the override loop that the
  listing does not show are assumed not to take the key \<open>global_transcription_rate\<close>.
\<close>

theorem override_then_global_multiplier:
  assumes reg: "distinct (map fst COMPONENT_CONSTANTS)"
    and p1: "map_of COMPONENT_CONSTANTS ''promoter_1'' = Some e"
    and ty: "e_type e = Some ''promoter''"
    and st: "map_of (e_fields e) ''strength'' = Some 5"
    and el: "elided ''global_transcription_rate'' (3 / 2) = None"
    and d: "dial_data = [(''promoter1_strength'', 10), (''global_transcription_rate'', 3 / 2)]
          \<or> dial_data = [(''global_transcription_rate'', 3 / 2), (''promoter1_strength'', 10)]"
  shows "strength_of COMPONENT_CONSTANTS ''promoter_1'' = Some 5 \<and>
         strength_of (adjusted_constants elided COMPONENT_CONSTANTS
            \<lparr> dial = Some dial_data, apply_dial = Some True \<rparr>) ''promoter_1'' = Some 15"
proof -
  have co: "component_overrides elided dial_data = [(''promoter_1'', [(''strength'', 10)])]"
    using d el by (auto simp: component_overrides_def override_entry_promoter1
        override_entry_global_transcription)
  have gt: "dial_get dial_data ''global_transcription_rate'' = 3 / 2"
    using d by (auto simp: dial_get_def)
  define e1 where "e1 = set_fields [(''strength'', 10)] e"
  have ov: "apply_overrides (component_overrides elided dial_data) COMPONENT_CONSTANTS
            = AList.update ''promoter_1'' e1 COMPONENT_CONSTANTS"
    by (simp add: co apply_overrides_def p1 e1_def)
  have e1t: "e_type e1 = Some ''promoter''" and e1s: "map_of (e_fields e1) ''strength'' = Some 10"
    by (simp_all add: e1_def set_fields_def ty update_conv)
  have dist: "distinct (map fst (AList.update ''promoter_1'' e1 COMPONENT_CONSTANTS))"
    using reg by (simp add: distinct_update)
  have ne: "dial_data \<noteq> []" using d by auto
  have "map_of (adjusted_constants elided COMPONENT_CONSTANTS
            \<lparr> dial = Some dial_data, apply_dial = Some True \<rparr>) ''promoter_1''
        = Some (global_entry (3 / 2) (dial_get dial_data ''global_degradation_rate'') e1)"
    by (simp add: adjusted_constants_def ne gt ov map_of_apply_globals[OF dist] update_conv)
  then show ?thesis
    using strength_global_entry[OF e1t e1s] by (simp add: strength_of_def p1 st)
qed

theorem override_then_global_multiplier_witness:
  "strength_of example_constants ''promoter_1'' = Some 5 \<and>
   strength_of (adjusted_constants (\<lambda>_ _. None) example_constants
      \<lparr> dial = Some [(''promoter1_strength'', 10), (''global_transcription_rate'', 3 / 2)],
        apply_dial = Some True \<rparr>) ''promoter_1'' = Some 15"
proof -
  have h1: "distinct (map fst example_constants)"
    by (simp add: example_constants_def)
  have h2: "map_of example_constants ''promoter_1''
            = Some \<lparr> e_type = Some ''promoter'', e_fields = [(''strength'', 5)] \<rparr>"
    by (simp add: example_constants_def)
  show ?thesis
    by (rule override_then_global_multiplier [OF h1 h2]) simp_all
qed

text \<open>
  Within one request: with \<open>apply_dial\<close> false, the dictionary handed to the builder
  holds what the constants hold when the request arrives, whatever the request's dial
  data are (also when there are none). That is the request both pages send when the
  toggle is off or missing: they replace whatever was collected by the five neutral
  global parameters and set \<open>apply_dial\<close> to false.
\<close>

lemma disabled_request_returns_constants_on_arrival:
  "adjusted_constants elided COMPONENT_CONSTANTS \<lparr> dial = d, apply_dial = Some False \<rparr>
     = COMPONENT_CONSTANTS
   \<and> runSimulation_request (Some False) collected
       = \<lparr> dial = Some neutral_dial, apply_dial = Some False \<rparr>
   \<and> runSimulation_request None collected
       = \<lparr> dial = Some neutral_dial, apply_dial = Some False \<rparr>
   \<and> runSimulationFromPlacedComponents_request True (Some False) collected
       = \<lparr> dial = Some neutral_dial, apply_dial = Some False \<rparr>
   \<and> adjusted_constants elided COMPONENT_CONSTANTS (runSimulation_request (Some False) collected)
       = COMPONENT_CONSTANTS
   \<and> adjusted_constants elided COMPONENT_CONSTANTS (runSimulation_request None collected)
       = COMPONENT_CONSTANTS
   \<and> adjusted_constants elided COMPONENT_CONSTANTS
         (runSimulationFromPlacedComponents_request dialForm (Some False) collected)
       = COMPONENT_CONSTANTS
   \<and> adjusted_constants elided COMPONENT_CONSTANTS
         (runSimulationFromPlacedComponents_request dialForm None collected)
       = COMPONENT_CONSTANTS"
  by (simp add: adjusted_constants_def runSimulation_request_def
      runSimulationFromPlacedComponents_request_def)

subsection \<open>The constants across requests\<close>

text \<open>
  On the store, one request leaves the dictionary of constants as it is and changes only
  the parameter dictionaries; read through the store it leaves, the constants hold what
  the request handed to the builder. The labels have distinct parameter dictionaries,
  as in the literal of \<open>constants.py\<close>.
\<close>

lemma contents_Nil [simp]: "contents [] h = []"
  by (simp add: contents_def)

lemma contents_Cons [simp]:
  "contents ((l, a) # d) h = (case map_of h a of None \<Rightarrow> [] | Some e \<Rightarrow> [(l, e)]) @ contents d h"
  by (simp add: contents_def)

lemma mem_contents: "(l, e) \<in> set (contents d h) \<Longrightarrow> l \<in> fst ` set d"
proof (induction d)
  case Nil
  then show ?case by simp
next
  case (Cons p d)
  obtain l' a where p: "p = (l', a)" by (cases p)
  from Cons.prems have "(l, e) \<in> set (contents d h) \<or> l = l'"
    by (cases "map_of h a") (auto simp: p)
  then show ?case using Cons.IH p by auto
qed

lemma fst_contents: "l \<in> fst ` set (contents d h) \<Longrightarrow> l \<in> fst ` set d"
  using mem_contents by fastforce

lemma map_of_contents:
  "distinct (map fst d) \<Longrightarrow> map_of (contents d h) l = Option.bind (map_of d l) (map_of h)"
proof (induction d)
  case Nil
  then show ?case by simp
next
  case (Cons p d)
  obtain l' a where p: "p = (l', a)" by (cases p)
  have ih: "map_of (contents d h) l = Option.bind (map_of d l) (map_of h)"
    using Cons by simp
  have "l' \<notin> fst ` set (contents d h)"
    using fst_contents[of l' d h] Cons.prems p by auto
  then have n: "map_of (contents d h) l' = None"
    by (simp add: map_of_eq_None_iff)
  show ?case
    using ih n by (cases "map_of h a") (auto simp: p)
qed

lemma distinct_contents: "distinct (map fst d) \<Longrightarrow> distinct (map fst (contents d h))"
proof (induction d)
  case Nil
  then show ?case by simp
next
  case (Cons p d)
  obtain l' a where p: "p = (l', a)" by (cases p)
  have "l' \<notin> fst ` set (contents d h)"
    using fst_contents[of l' d h] Cons.prems p by auto
  then show ?case using Cons p by (cases "map_of h a") auto
qed

lemma map_of_write_entry:
  "map_of (write_entry a f h) a' = (if a' = a then map_option f (map_of h a) else map_of h a')"
  by (cases "map_of h a") (auto simp: write_entry_def update_conv)

lemma distinct_apply_overrides:
  "distinct (map fst reg) \<Longrightarrow> distinct (map fst (apply_overrides co reg))"
  unfolding apply_overrides_def
  by (induction co arbitrary: reg) (auto simp: distinct_update split: option.splits)

lemma apply_overrides_store_refines:
  assumes "distinct (map fst d)" and "distinct (map snd d)"
  shows "map_of r = map_of (contents d h) \<Longrightarrow>
         map_of (apply_overrides co r) = map_of (contents d (apply_overrides_store co d h))"
proof (induction co arbitrary: r h)
  case Nil
  then show ?case by (simp add: apply_overrides_def apply_overrides_store_def)
next
  case (Cons x co)
  obtain n ovs where x: "x = (n, ovs)" by (cases x)
  define r1 where "r1 = (case map_of r n of None \<Rightarrow> r | Some e \<Rightarrow> AList.update n (set_fields ovs e) r)"
  define h1 where "h1 = (case map_of d n of None \<Rightarrow> h | Some a \<Rightarrow> write_entry a (set_fields ovs) h)"
  have step: "map_of r1 = map_of (contents d h1)"
  proof
    fix l
    show "map_of r1 l = map_of (contents d h1) l"
    proof (cases "map_of d n")
      case None
      then have "map_of r n = None" using Cons.prems assms(1) by (simp add: map_of_contents)
      then show ?thesis using None Cons.prems by (simp add: r1_def h1_def)
    next
      case (Some a)
      have inj: "\<And>l' a'. map_of d l' = Some a' \<Longrightarrow> (a' = a) = (l' = n)"
      proof -
        fix l' a' assume m: "map_of d l' = Some a'"
        have "(l', a') \<in> set d" "(n, a) \<in> set d" using m Some by (auto dest: map_of_SomeD)
        then show "(a' = a) = (l' = n)"
          using assms by (metis Some distinct_map inj_on_def m option.inject snd_conv map_of_SomeD fst_conv)
      qed
      show ?thesis
      proof (cases "map_of h a")
        case None
        then have "map_of r n = None" using Cons.prems assms(1) Some by (simp add: map_of_contents)
        moreover have "h1 = h" using None Some by (simp add: h1_def write_entry_def)
        ultimately show ?thesis using Cons.prems by (simp add: r1_def)
      next
        case (Some e)
        then have rn: "map_of r n = Some e"
          using Cons.prems assms(1) \<open>map_of d n = Some a\<close> by (simp add: map_of_contents)
        have "map_of r1 l = (if l = n then Some (set_fields ovs e) else map_of r l)"
          by (simp add: r1_def rn update_conv)
        moreover have "map_of (contents d h1) l = (if l = n then Some (set_fields ovs e) else map_of (contents d h) l)"
          using assms(1) \<open>map_of d n = Some a\<close> Some inj
          by (cases "map_of d l") (auto simp: map_of_contents h1_def map_of_write_entry)
        ultimately show ?thesis using Cons.prems by simp
      qed
    qed
  qed
  have "apply_overrides (x # co) r = apply_overrides co r1"
    by (simp add: apply_overrides_def x r1_def)
  moreover have "apply_overrides_store (x # co) d h = apply_overrides_store co d h1"
    by (simp add: apply_overrides_store_def x h1_def)
  ultimately show ?case using Cons.IH[OF step] by simp
qed

lemma address_inj:
  assumes "distinct (map snd d)" and "map_of d k = Some a" and "map_of d k' = Some a"
  shows "k = k'"
proof -
  have "(k, a) \<in> set d" "(k', a) \<in> set d"
    using assms(2,3) by (auto dest: map_of_SomeD)
  then show ?thesis
    using assms(1) by (metis distinct_map inj_onD snd_conv fst_conv)
qed

lemma globals_store_aux:
  assumes "distinct (map snd d)"
  shows "distinct ks \<Longrightarrow> set ks \<subseteq> fst ` set d \<Longrightarrow>
    map_of (fold (\<lambda>comp_name h'. case map_of d comp_name of None \<Rightarrow> h'
                   | Some a \<Rightarrow> write_entry a g h') ks h) a
    = (if \<exists>k \<in> set ks. map_of d k = Some a then map_option g (map_of h a) else map_of h a)"
proof (induction ks arbitrary: h)
  case Nil
  then show ?case by simp
next
  case (Cons k ks)
  obtain ak where ak: "map_of d k = Some ak"
    using Cons.prems(2) by (cases "map_of d k") (auto simp: map_of_eq_None_iff)
  have notin: "\<not> (\<exists>k' \<in> set ks. map_of d k' = Some ak)"
    using address_inj[OF assms ak] Cons.prems(1) by auto
  have ih: "map_of (fold (\<lambda>comp_name h'. case map_of d comp_name of None \<Rightarrow> h'
                   | Some a \<Rightarrow> write_entry a g h') ks (write_entry ak g h)) a
      = (if \<exists>k \<in> set ks. map_of d k = Some a then map_option g (map_of (write_entry ak g h) a)
         else map_of (write_entry ak g h) a)"
    using Cons.IH[of "write_entry ak g h"] Cons.prems by simp
  show ?case
    using ih notin ak by (auto simp: map_of_write_entry)
qed

lemma map_of_apply_globals_store:
  assumes "distinct (map fst d)" and "distinct (map snd d)"
  shows "map_of (contents d (apply_globals_store gt gd d h)) l
         = map_option (global_entry gt gd) (map_of (contents d h) l)"
proof (cases "map_of d l")
  case None
  then show ?thesis using assms(1) by (simp add: map_of_contents)
next
  case (Some a)
  then have "l \<in> set (map fst d)" by (auto dest: map_of_SomeD intro: rev_image_eqI)
  then have "\<exists>k \<in> set (map fst d). map_of d k = Some a" using Some by blast
  then have "map_of (apply_globals_store gt gd d h) a = map_option (global_entry gt gd) (map_of h a)"
    unfolding apply_globals_store_def
    using globals_store_aux[OF assms(2), of "map fst d" "global_entry gt gd" h a] assms(1) by simp
  then show ?thesis using assms(1) Some by (simp add: map_of_contents)
qed

lemma simulate_store_agrees:
  assumes "distinct (map fst d)" and "distinct (map snd d)"
  shows "fst (simulate_store elided d h data) = d \<and>
         map_of (contents d (snd (simulate_store elided d h data)))
         = map_of (adjusted_constants elided (contents d h) data)"
proof -
  define dial_data where "dial_data = (case dial data of None \<Rightarrow> [] | Some d \<Rightarrow> d)"
  define co where "co = component_overrides elided dial_data"
  define gt where "gt = dial_get dial_data ''global_transcription_rate''"
  define gd where "gd = dial_get dial_data ''global_degradation_rate''"
  have ov: "map_of (apply_overrides co (contents d h)) = map_of (contents d (apply_overrides_store co d h))"
    by (rule apply_overrides_store_refines[OF assms]) simp
  have dist: "distinct (map fst (apply_overrides co (contents d h)))"
    by (rule distinct_apply_overrides) (rule distinct_contents[OF assms(1)])
  have "map_of (contents d (apply_globals_store gt gd d (apply_overrides_store co d h)))
        = map_of (apply_globals gt gd (apply_overrides co (contents d h)))"
  proof
    fix l
    show "map_of (contents d (apply_globals_store gt gd d (apply_overrides_store co d h))) l
        = map_of (apply_globals gt gd (apply_overrides co (contents d h))) l"
      by (simp add: map_of_apply_globals_store[OF assms] map_of_apply_globals[OF dist] ov)
  qed
  then show ?thesis
    by (simp add: simulate_store_def adjusted_constants_def Let_def
        dial_data_def[symmetric] co_def[symmetric] gt_def[symmetric] gd_def[symmetric])
qed

lemma component_overrides_example:
  "component_overrides (\<lambda>_ _. None)
     [(''promoter1_strength'', 10), (''global_transcription_rate'', 3 / 2)]
   = [(''promoter_1'', [(''strength'', 10)])]"
  by (simp add: component_overrides_def override_entry_promoter1 override_entry_global_transcription)

text \<open>
  C4, at two requests in a row. The constants are the example's, with strength
  \<open>5.0\<close> for both promoters. The first request has overrides enabled, with
  \<open>promoter1_strength = 10.0\<close> and \<open>global_transcription_rate = 1.5\<close>; its
  assignments go through the shallow copy into the parameter dictionaries of
  \<open>COMPONENT_CONSTANTS\<close>. The second request is the one the page sends with the
  toggle off. The dictionary it hands to the builder has the strengths \<open>15.0\<close> and
  \<open>7.5\<close>, not the defaults.
\<close>

theorem disabled_request_after_enabled_request:
  "let enabled = \<lparr> dial = Some [(''promoter1_strength'', 10), (''global_transcription_rate'', 3 / 2)],
                    apply_dial = Some True \<rparr>;
       disabled = runSimulation_request (Some False) [(''promoter1_strength'', 10)];
       (adjusted1, h1) = simulate_store (\<lambda>_ _. None) example_dict example_store enabled;
       (adjusted2, h2) = simulate_store (\<lambda>_ _. None) example_dict h1 disabled
   in contents example_dict example_store = example_constants
      \<and> apply_dial disabled = Some False
      \<and> strength_of (contents adjusted2 h2) ''promoter_1'' = Some 15
      \<and> strength_of (contents adjusted2 h2) ''promoter_2'' = Some (15 / 2)"
  by (simp add: simulate_store_def component_overrides_example dial_get_def
      runSimulation_request_def example_dict_def example_store_def
      apply_overrides_store_def apply_globals_store_def write_entry_def set_fields_def
      global_entry_def scale_field_def contents_def strength_of_def example_constants_def Let_def)

section \<open>Properties of circuit building\<close>

lemma has_cds_assign [simp]: "has_cds (map (assign_parameters consts) comps) = has_cds comps"
  by (induction comps) (auto simp: has_cds_def assign_parameters_def)

lemma label_assign [simp]: "label (assign_parameters consts c) = label c"
  by (simp add: assign_parameters_def)

lemma labels_finalize:
  "map (\<lambda>c. map label (components c)) (circuits (fst (finalize_block b comps)))
   = map (\<lambda>c. map label (components c)) (circuits b) @ (if has_cds comps then [map label comps] else [])"
  by (auto simp: finalize_block_def Let_def comp_def)

lemma labels_close:
  "map (\<lambda>c. map label (components c)) (circuits (fst (close_block b block)))
   = map (\<lambda>c. map label (components c)) (circuits b)
     @ (if block \<noteq> [] \<and> has_cds block then [map label block] else [])"
  by (simp add: close_block_def labels_finalize)

lemma build_loop_labels:
  "map (\<lambda>c. map label (components c)) (circuits (fst (build_loop b block (its @ [None]))))
   = map (\<lambda>c. map label (components c)) (circuits b)
     @ map (map label) (filter has_cds (blocks_from block its))"
proof (induction b block its rule: build_loop.induct)
  case (1 b block)
  then show ?case
    using labels_close[of b block] by (auto split: prod.splits)
next
  case (2 b block rest)
  obtain b' blk where c: "close_block b block = (b', blk)" by (cases "close_block b block")
  have l: "map (\<lambda>c. map label (components c)) (circuits b')
      = map (\<lambda>c. map label (components c)) (circuits b)
        @ (if block \<noteq> [] \<and> has_cds block then [map label block] else [])"
    using labels_close[of b block] c by simp
  show ?case
    using "2.IH"[OF c[symmetric]] c l by (auto split: prod.splits)
next
  case (3 b block item rest)
  then show ?case by simp
qed

lemma circuits_build_blocks:
  "circuits (build_blocks b) = circuits (fst (build_loop b [] (items b @ [None])))"
  by (simp add: build_blocks_def split: prod.splits)

text \<open>
  C5. \<open>_finalize_block\<close> on a block without a CDS appends no circuit and raises no
  error (the function has no failing step); what it does is write the parameters of the
  block's components. Over a whole item list, \<open>build\<close> appends one circuit for every
  block that has a CDS, in order, and nothing for the other blocks: the circuits'
  component labels are exactly the labels of the blocks with a CDS.
\<close>

theorem block_without_cds_is_dropped:
  "(\<not> has_cds comps \<longrightarrow>
      circuits (fst (finalize_block b comps)) = circuits b
      \<and> snd (finalize_block b comps) = map (assign_parameters (constants b)) comps) \<and>
   map (\<lambda>c. map label (components c)) (circuits (build_blocks b))
   = map (\<lambda>c. map label (components c)) (circuits b)
     @ map (map label) (filter has_cds (blocks_from [] (items b)))"
  by (simp add: circuits_build_blocks build_loop_labels) (simp add: finalize_block_def)

theorem block_without_cds_is_dropped_witness:
  "let its = [Some (mk_part ''promoter_1'' ''promoter'' 0), Some (mk_part ''rbs_1'' ''rbs'' 1),
              None,
              Some (mk_part ''promoter_2'' ''promoter'' 16), Some (mk_part ''cds_1'' ''cds'' 17)];
       b = new_builder example_constants its
   in \<not> has_cds [mk_part ''promoter_1'' ''promoter'' 0, mk_part ''rbs_1'' ''rbs'' 1]
      \<and> circuits (fst (finalize_block b
            [mk_part ''promoter_1'' ''promoter'' 0, mk_part ''rbs_1'' ''rbs'' 1])) = []
      \<and> map (\<lambda>c. map label (components c)) (circuits (build_blocks b)) = [[''promoter_2'', ''cds_1'']]
      \<and> map (map_option parameters) (items (build_blocks b))
          = [Some [(''strength'', 5)], Some [(''efficiency'', 1)], None,
             Some [(''strength'', 5)], Some [(''translation_rate'', 7), (''degradation_rate'', 1)]]"
proof -
  define its where "its = [Some (mk_part ''promoter_1'' ''promoter'' 0), Some (mk_part ''rbs_1'' ''rbs'' 1),
              None,
              Some (mk_part ''promoter_2'' ''promoter'' 16), Some (mk_part ''cds_1'' ''cds'' 17)]"
  define b where "b = new_builder example_constants its"
  have written: "map (map_option parameters) (items (build_blocks b))
          = [Some [(''strength'', 5)], Some [(''efficiency'', 1)], None,
             Some [(''strength'', 5)], Some [(''translation_rate'', 7), (''degradation_rate'', 1)]]"
    by (simp add: b_def its_def build_blocks_def new_builder_def mk_part_def close_block_def
        finalize_block_def assign_parameters_def has_cds_def params_get_def example_constants_def
        Let_def)
  have main: "\<not> has_cds [mk_part ''promoter_1'' ''promoter'' 0, mk_part ''rbs_1'' ''rbs'' 1]
      \<and> circuits (fst (finalize_block b
            [mk_part ''promoter_1'' ''promoter'' 0, mk_part ''rbs_1'' ''rbs'' 1])) = []
      \<and> map (\<lambda>c. map label (components c)) (circuits (build_blocks b)) = [[''promoter_2'', ''cds_1'']]"
    using block_without_cds_is_dropped
      [of "[mk_part ''promoter_1'' ''promoter'' 0, mk_part ''rbs_1'' ''rbs'' 1]" b]
    by (simp add: b_def its_def has_cds_def mk_part_def new_builder_def)
  show ?thesis
    unfolding Let_def its_def[symmetric] b_def[symmetric]
    using main written by simp
qed

section \<open>Properties of the regulation records\<close>

lemma floating_components_starts:
  "starts fam = s # ss \<Longrightarrow>
   floating_components fam comps regs
   = Inr (regs @ map (\<lambda>p. \<lparr> source = Some (label s), target = label p,
                            kind = ''environmental_'' @ fmt_type (reg_type fam) \<rparr>)
                     (filter (\<lambda>p. part_type p = ''promoter'') comps))"
  by (induction comps arbitrary: regs) auto

lemma floating_circuits_starts:
  "starts fam = s # ss \<Longrightarrow>
   floating_circuits fam circs regs
   = Inr (regs @ map (\<lambda>p. \<lparr> source = Some (label s), target = label p,
                            kind = ''environmental_'' @ fmt_type (reg_type fam) \<rparr>)
                     (all_promoters circs))"
  by (induction circs arbitrary: regs) (auto simp: floating_components_starts all_promoters_def)

text \<open>
  C6, as the floating case computes it. For a family flagged as floating that has at
  least one start instance, the pass over the family appends one record for every
  promoter of every circuit, in order. The type of each record is \<open>environmental_\<close>
  followed by the family's type, and its source is the label of the family's first start
  instance: the source is not null.
\<close>

theorem floating_family_records:
  assumes "is_floating fam = Some True" and "starts fam = s # ss"
  shows "family_regulations positional key fam b
         = Inr (regulations b @
                map (\<lambda>p. \<lparr> source = Some (label s), target = label p,
                            kind = ''environmental_'' @ fmt_type (reg_type fam) \<rparr>)
                    (all_promoters (circuits b)))"
  using assms by (simp add: family_regulations_def floating_circuits_starts)

theorem floating_family_records_witness:
  "is_floating example_floating_family = Some True \<and>
   family_regulations (\<lambda>key fam b. Inr (regulations b)) ''floating_repressor'' example_floating_family
     ((new_builder example_constants []) \<lparr> circuits := [example_circuit, example_circuit] \<rparr>)
   = Inr [\<lparr> source = Some ''floating_repressor'', target = ''promoter_1'',
             kind = ''environmental_repression'' \<rparr>,
          \<lparr> source = Some ''floating_repressor'', target = ''promoter_1'',
             kind = ''environmental_repression'' \<rparr>]"
proof -
  have f: "is_floating example_floating_family = Some True"
    by (simp add: example_floating_family_def)
  have s: "starts example_floating_family
           = [(mk_part ''floating_repressor'' ''repressor'' 5) \<lparr> is_regulator := True \<rparr>]"
    by (simp add: example_floating_family_def)
  show ?thesis
    using floating_family_records [OF f s] f
    by (simp add: all_promoters_def example_circuit_def new_builder_def mk_part_def
        fmt_type_def example_floating_family_def)
qed

text \<open>
  C6, as the specification states it, fails: for the floating family of one start
  instance \<open>floating_repressor\<close> and one circuit with the promoter \<open>promoter_1\<close>,
  the record emitted has the source \<open>floating_repressor\<close>, not null.
\<close>

theorem floating_source_not_null_counterexample:
  "family_regulations (\<lambda>key fam b. Inr (regulations b)) ''floating_repressor'' example_floating_family
     ((new_builder example_constants []) \<lparr> circuits := [example_circuit] \<rparr>)
   = Inr [\<lparr> source = Some ''floating_repressor'', target = ''promoter_1'',
             kind = ''environmental_repression'' \<rparr>]"
  by (simp add: family_regulations_def example_floating_family_def example_circuit_def
      new_builder_def mk_part_def fmt_type_def)

lemma filter_add_cds:
  "filter (targets_promoter q) (add_constitutive_cds p regs)
   = (if q = p \<and> filter (targets_promoter p) regs = [] then [constitutive_record p]
      else filter (targets_promoter q) regs)"
  by (auto simp: add_constitutive_cds_def list_ex_iff filter_empty_conv
      targets_promoter_def constitutive_record_def)

lemma filter_add_cds_fold:
  "filter (targets_promoter q) (fold (\<lambda>cds rs. add_constitutive_cds p rs) cs regs)
   = (if q = p \<and> cs \<noteq> [] \<and> filter (targets_promoter p) regs = [] then [constitutive_record p]
      else filter (targets_promoter q) regs)"
proof (induction cs arbitrary: regs)
  case Nil
  then show ?case by simp
next
  case (Cons c cs)
  show ?case
    by (simp add: Cons.IH filter_add_cds)
qed

lemma has_cds_filter: "has_cds comps \<longleftrightarrow> filter (\<lambda>c. part_type c = ''cds'') comps \<noteq> []"
  by (auto simp: has_cds_def list_ex_iff filter_empty_conv)

lemma filter_add_circuit:
  "filter (targets_promoter q) (add_constitutive_circuit circ regs)
   = (if triggers circ q \<and> filter (targets_promoter q) regs = [] then [constitutive_record q]
      else filter (targets_promoter q) regs)"
  by (cases "governing_promoter circ")
     (auto simp: add_constitutive_circuit_def triggers_def filter_add_cds_fold has_cds_filter)

lemma filter_add_regulations:
  "filter (targets_promoter q) (add_constitutive_regulations circs regs)
   = (if (\<exists>c \<in> set circs. triggers c q) \<and> filter (targets_promoter q) regs = []
      then [constitutive_record q]
      else filter (targets_promoter q) regs)"
  unfolding add_constitutive_regulations_def
proof (induction circs arbitrary: regs)
  case Nil
  then show ?case by simp
next
  case (Cons c circs)
  show ?case
    by (simp add: Cons.IH filter_add_circuit)
qed

text \<open>
  C3, on the constitutive fallback as the specification describes it. After the
  fallback, for every circuit that has a CDS and a governing promoter, the number of
  records that target the promoter is at least one and at most the number of explicit
  records plus one. When no explicit record targets the promoter, the records that
  target it are exactly one constitutive record; otherwise they are the explicit ones,
  unchanged.
\<close>

theorem constitutive_fallback_complete:
  assumes "circ \<in> set circs" and "governing_promoter circ = Some p" and "has_cds (components circ)"
  shows "1 \<le> records_for (label p) (add_constitutive_regulations circs regs)
       \<and> records_for (label p) (add_constitutive_regulations circs regs) \<le> records_for (label p) regs + 1
       \<and> filter (targets_promoter (label p)) (add_constitutive_regulations circs regs)
         = (if records_for (label p) regs = 0 then [constitutive_record (label p)]
            else filter (targets_promoter (label p)) regs)"
proof -
  have t: "\<exists>c \<in> set circs. triggers c (label p)"
    using assms by (auto simp: triggers_def)
  show ?thesis
    using t by (auto simp: records_for_def filter_add_regulations Suc_le_eq)
qed

theorem constitutive_fallback_complete_witness:
  "example_circuit \<in> set [example_circuit] \<and>
   governing_promoter example_circuit = Some (mk_part ''promoter_1'' ''promoter'' 0) \<and>
   has_cds (components example_circuit) \<and>
   records_for ''promoter_1'' (add_constitutive_regulations [example_circuit] []) = 1 \<and>
   filter (targets_promoter ''promoter_1'') (add_constitutive_regulations [example_circuit] [])
     = [constitutive_record ''promoter_1'']"
proof -
  have m: "example_circuit \<in> set [example_circuit]" by simp
  have g: "governing_promoter example_circuit = Some (mk_part ''promoter_1'' ''promoter'' 0)"
    by (simp add: governing_promoter_def example_circuit_def mk_part_def)
  have h: "has_cds (components example_circuit)"
    by (simp add: has_cds_def example_circuit_def mk_part_def)
  have l: "label (mk_part ''promoter_1'' ''promoter'' 0) = ''promoter_1''"
    by (simp add: mk_part_def)
  show ?thesis
    using constitutive_fallback_complete [OF m g h, of "[]"] m g h
    by (simp add: l records_for_def)
qed

section \<open>Properties of the ODE setup\<close>



text \<open>
  C8. For a regulation whose type names a repression, with threshold \<open>0.5\<close> and
  Hill coefficient \<open>2\<close>, the Hill term is exactly \<open>1\<close> at source concentration
  \<open>0\<close>, and at source concentration \<open>5\<close> it is \<open>0.25 / 25.25\<close>, below
  \<open>0.02\<close>.
\<close>

theorem hill_repression_boundary:
  assumes "py_in ''repression'' reg_kind"
  shows "hill reg_kind (1 / 2) 2 0 = Some 1 \<and>
         (\<exists>f. hill reg_kind (1 / 2) 2 5 = Some f \<and> f < 2 / 100)"
proof -
  have z: "hill reg_kind (1 / 2) 2 0 = Some 1"
    using assms by (simp add: hill_def power2_eq_square)
  have f: "hill reg_kind (1 / 2) 2 5 = Some (1 / 101)"
    using assms by (simp add: hill_def power2_eq_square)
  have "(1 / 101 :: real) < 2 / 100" by simp
  with z f show ?thesis by blast
qed

theorem hill_repression_boundary_witness:
  "py_in ''repression'' ''transcriptional_repression'' \<and>
   hill ''transcriptional_repression'' (1 / 2) 2 0 = Some 1 \<and>
   (\<exists>f. hill ''transcriptional_repression'' (1 / 2) 2 5 = Some f \<and> f < 2 / 100)"
proof -
  have h: "py_in ''repression'' ''transcriptional_repression''"
    by (simp add: startswith_def)
  show ?thesis using hill_repression_boundary [OF h] h by simp
qed

text \<open>
  C9, at four proteins with regulatory feedback and all initial concentrations zero. The
  guard \<open>len(p0) >= 3\<close> holds, and the listing assigns the fixed list of three
  values: the initial state has three entries for four proteins, where the seed repeated
  cyclically over the proteins has four.
\<close>

theorem seed_for_four_proteins:
  "initial_conditions True [0, 0, 0, 0] = [1, 1 / 10, 1 / 20] \<and>
   length (initial_conditions True [0, 0, 0, 0]) = 3 \<and>
   cycling_seed 4 = [1, 1 / 10, 1 / 20, 1] \<and>
   initial_conditions True [0, 0, 0, 0] \<noteq> cycling_seed 4"
proof -
  have i: "initial_conditions True [0, 0, 0, 0] = [1, 1 / 10, 1 / 20]"
    by (simp add: initial_conditions_def)
  have c: "cycling_seed 4 = [1, 1 / 10, 1 / 20, 1]"
    by (simp add: cycling_seed_def upt_conv_Cons)
  show ?thesis
    by (simp add: i c)
qed

end
